theory Spec2Isabelle
  imports Complex_Main "HOL-Library.Word" "HOL-Library.AList"
begin

section \<open>JavaScript values\<close>

text \<open>
  A JavaScript string is a sequence of UTF-16 code units. The regular expressions of
  \<^verbatim>\<open>validators.ts\<close> carry no \<^verbatim>\<open>u\<close> flag and \<^verbatim>\<open>trim()\<close> works on code units as well,
  so the code unit is the character of this development. \<open>js\<close> turns an ASCII literal
  of the source into its code units.
\<close>

type_synonym code_unit = "16 word"
type_synonym jsstring = "code_unit list"

definition js :: "string \<Rightarrow> jsstring" where
  "js s = map of_char s"

text \<open>
  The code units matched by \<^verbatim>\<open>\s\<close> and stripped by \<^verbatim>\<open>trim()\<close>: ECMAScript's
  WhiteSpace and LineTerminator productions.
\<close>

definition isWhiteSpace :: "code_unit \<Rightarrow> bool" where
  "isWhiteSpace c \<longleftrightarrow>
     c = 0x0009 \<or> c = 0x000A \<or> c = 0x000B \<or> c = 0x000C \<or> c = 0x000D \<or> c = 0x0020 \<or>
     c = 0x00A0 \<or> c = 0x1680 \<or> (0x2000 \<le> c \<and> c \<le> 0x200A) \<or> c = 0x2028 \<or>
     c = 0x2029 \<or> c = 0x202F \<or> c = 0x205F \<or> c = 0x3000 \<or> c = 0xFEFF"

definition trim :: "jsstring \<Rightarrow> jsstring" where
  "trim s = rev (dropWhile isWhiteSpace (rev (dropWhile isWhiteSpace s)))"

text \<open>
  A number is an IEEE double. The code only asks three things of a number: its
  \<^verbatim>\<open>typeof\<close>, its truthiness and strict (in)equality. \<open>Num x\<close> stands for the finite
  double of value \<open>x\<close> (the two zeros are one value, as they are for \<^verbatim>\<open>!\<close> and
  \<^verbatim>\<open>===\<close>).
\<close>

datatype number = NaN | PosInfinity | NegInfinity | Num real

definition strict_eq :: "number \<Rightarrow> number \<Rightarrow> bool" where
  "strict_eq a b \<longleftrightarrow> a \<noteq> NaN \<and> a = b"

text \<open>
  What \<^verbatim>\<open>response.json()\<close> can return: a JSON value. An object is the list of its
  own properties, keys distinct. A value of TypeScript type \<^verbatim>\<open>unknown\<close>, or an optional
  field, is a \<open>json option\<close> with \<open>None\<close> for \<^verbatim>\<open>undefined\<close>.
\<close>

datatype json =
    JNull
  | JBool bool
  | JNum number
  | JStr jsstring
  | JArr "json list"
  | JObj "(jsstring \<times> json) list"

datatype typeof_result = Tundefined | Tobject | Tboolean | Tnumber | Tstring

fun typeof :: "json option \<Rightarrow> typeof_result" where
  "typeof None = Tundefined"
| "typeof (Some JNull) = Tobject"
| "typeof (Some (JBool b)) = Tboolean"
| "typeof (Some (JNum n)) = Tnumber"
| "typeof (Some (JStr s)) = Tstring"
| "typeof (Some (JArr xs)) = Tobject"
| "typeof (Some (JObj kvs)) = Tobject"

text \<open>The operand of \<^verbatim>\<open>!\<close>: \<open>truthy v\<close> is \<^verbatim>\<open>!!v\<close>.\<close>

fun truthy :: "json option \<Rightarrow> bool" where
  "truthy None = False"
| "truthy (Some JNull) = False"
| "truthy (Some (JBool b)) = b"
| "truthy (Some (JNum n)) = (n \<noteq> NaN \<and> n \<noteq> Num 0)"
| "truthy (Some (JStr s)) = (s \<noteq> [])"
| "truthy (Some (JArr xs)) = True"
| "truthy (Some (JObj kvs)) = True"

text \<open>
  Reading one of the entity fields (\<^verbatim>\<open>id\<close>, \<^verbatim>\<open>postId\<close>, \<^verbatim>\<open>name\<close>, ...) of a value
  that is neither \<^verbatim>\<open>null\<close> nor \<^verbatim>\<open>undefined\<close>: an object yields its property, and no
  array, string, number or boolean has a property of one of these names.
\<close>

fun property :: "json option \<Rightarrow> jsstring \<Rightarrow> json option" where
  "property (Some (JObj kvs)) k = map_of kvs k"
| "property v k = None"

text \<open>The value of an expression that a \<^verbatim>\<open>typeof\<close> check has narrowed.\<close>

fun asString :: "json option \<Rightarrow> jsstring" where
  "asString (Some (JStr s)) = s"
| "asString v = []"

fun asNumber :: "json option \<Rightarrow> number" where
  "asNumber (Some (JNum n)) = n"
| "asNumber v = NaN"

text \<open>
  \<^verbatim>\<open>Object.fromEntries\<close> and object spread: a later entry of the same key replaces the
  value of the earlier one.
\<close>

definition Object_fromEntries :: "('k \<times> 'v) list \<Rightarrow> ('k \<times> 'v) list" where
  "Object_fromEntries entries = fold (\<lambda>(k, v) obj. AList.update k v obj) entries []"

section \<open>Regular expressions\<close>

text \<open>
  The two patterns of \<^verbatim>\<open>validators.ts\<close> are built from character classes,
  concatenation, alternation and repetition, and are anchored at both ends.
  \<open>lang\<close> is what it means for a string to match; \<open>RegExp_test\<close> is the matcher.
\<close>

datatype rexp =
    Never
  | Eps
  | Class "code_unit \<Rightarrow> bool"
  | Cat rexp rexp
  | Or rexp rexp
  | Rep rexp

inductive_set star :: "'a list set \<Rightarrow> 'a list set" for A :: "'a list set" where
  star_nil: "[] \<in> star A"
| star_step: "u \<in> A \<Longrightarrow> v \<in> star A \<Longrightarrow> u @ v \<in> star A"

fun lang :: "rexp \<Rightarrow> jsstring set" where
  "lang Never = {}"
| "lang Eps = {[]}"
| "lang (Class P) = {[c] | c. P c}"
| "lang (Cat r s) = {u @ v | u v. u \<in> lang r \<and> v \<in> lang s}"
| "lang (Or r s) = lang r \<union> lang s"
| "lang (Rep r) = star (lang r)"

fun nullable :: "rexp \<Rightarrow> bool" where
  "nullable Never = False"
| "nullable Eps = True"
| "nullable (Class P) = False"
| "nullable (Cat r s) = (nullable r \<and> nullable s)"
| "nullable (Or r s) = (nullable r \<or> nullable s)"
| "nullable (Rep r) = True"

fun cat :: "rexp \<Rightarrow> rexp \<Rightarrow> rexp" where
  "cat Never s = Never"
| "cat Eps s = s"
| "cat r s = Cat r s"

fun alt :: "rexp \<Rightarrow> rexp \<Rightarrow> rexp" where
  "alt Never s = s"
| "alt r Never = r"
| "alt r s = Or r s"

fun deriv :: "code_unit \<Rightarrow> rexp \<Rightarrow> rexp" where
  "deriv c Never = Never"
| "deriv c Eps = Never"
| "deriv c (Class P) = (if P c then Eps else Never)"
| "deriv c (Cat r s) =
     (if nullable r then alt (cat (deriv c r) s) (deriv c s) else cat (deriv c r) s)"
| "deriv c (Or r s) = alt (deriv c r) (deriv c s)"
| "deriv c (Rep r) = cat (deriv c r) (Rep r)"

text \<open>
  \<^verbatim>\<open>/^r$/.test(s)\<close> for a pattern without flags: the whole of \<open>s\<close> has to match \<open>r\<close>.
\<close>

definition RegExp_test :: "rexp \<Rightarrow> jsstring \<Rightarrow> bool" where
  "RegExp_test r s = nullable (fold deriv s r)"

definition one_or_more :: "rexp \<Rightarrow> rexp" where
  "one_or_more r = Cat r (Rep r)"

definition opt :: "rexp \<Rightarrow> rexp" where
  "opt r = Or r Eps"

text \<open>\<open>at_most n r\<close> is \<^verbatim>\<open>r{0,n}\<close>.\<close>

fun at_most :: "nat \<Rightarrow> rexp \<Rightarrow> rexp" where
  "at_most 0 r = Eps"
| "at_most (Suc n) r = opt (Cat r (at_most n r))"

definition lit :: "code_unit \<Rightarrow> rexp" where
  "lit a = Class (\<lambda>c. c = a)"


text \<open>\<open>between lo hi\<close> is the class range \<^verbatim>\<open>lo-hi\<close>.\<close>

definition between :: "code_unit \<Rightarrow> code_unit \<Rightarrow> code_unit \<Rightarrow> bool" where
  "between lo hi c \<longleftrightarrow> lo \<le> c \<and> c \<le> hi"

section \<open>types/api-responses.ts\<close>

text \<open>
  The envelope \<^verbatim>\<open>ApiResponse<T>\<close>. \<^verbatim>\<open>data\<close> and \<^verbatim>\<open>error\<close> are optional;
  \<^verbatim>\<open>headers\<close> is declared \<^verbatim>\<open>Record<string, string>\<close>, and since
  \<^verbatim>\<open>validateApiResponse\<close> checks at run time that it is defined and an object, it is an
  \<^verbatim>\<open>unknown\<close> here as well. An HTTP status is an integer.
\<close>

record ApiResponse =
  data :: "json option"
  error :: "json option"
  status :: int
  headers :: "json option"

definition isComment :: "json option \<Rightarrow> bool" where
  "isComment obj \<longleftrightarrow>
     typeof obj = Tobject \<and>
     obj \<noteq> Some JNull \<and>
     typeof (property obj (js ''id'')) = Tnumber \<and>
     typeof (property obj (js ''postId'')) = Tnumber \<and>
     typeof (property obj (js ''name'')) = Tstring \<and>
     typeof (property obj (js ''email'')) = Tstring \<and>
     typeof (property obj (js ''body'')) = Tstring"

definition isPhoto :: "json option \<Rightarrow> bool" where
  "isPhoto obj \<longleftrightarrow>
     typeof obj = Tobject \<and>
     obj \<noteq> Some JNull \<and>
     typeof (property obj (js ''id'')) = Tnumber \<and>
     typeof (property obj (js ''albumId'')) = Tnumber \<and>
     typeof (property obj (js ''title'')) = Tstring \<and>
     typeof (property obj (js ''url'')) = Tstring \<and>
     typeof (property obj (js ''thumbnailUrl'')) = Tstring"

definition isAlbum :: "json option \<Rightarrow> bool" where
  "isAlbum obj \<longleftrightarrow>
     typeof obj = Tobject \<and>
     obj \<noteq> Some JNull \<and>
     typeof (property obj (js ''id'')) = Tnumber \<and>
     typeof (property obj (js ''userId'')) = Tnumber \<and>
     typeof (property obj (js ''title'')) = Tstring"

definition isTodo :: "json option \<Rightarrow> bool" where
  "isTodo obj \<longleftrightarrow>
     typeof obj = Tobject \<and>
     obj \<noteq> Some JNull \<and>
     typeof (property obj (js ''id'')) = Tnumber \<and>
     typeof (property obj (js ''userId'')) = Tnumber \<and>
     typeof (property obj (js ''title'')) = Tstring \<and>
     typeof (property obj (js ''completed'')) = Tboolean"

definition isPost :: "json option \<Rightarrow> bool" where
  "isPost obj \<longleftrightarrow>
     typeof obj = Tobject \<and>
     obj \<noteq> Some JNull \<and>
     typeof (property obj (js ''id'')) = Tnumber \<and>
     typeof (property obj (js ''userId'')) = Tnumber \<and>
     typeof (property obj (js ''title'')) = Tstring \<and>
     typeof (property obj (js ''body'')) = Tstring"

section \<open>utils/validators.ts\<close>

text \<open>
  Console output is diagnostic only: nothing a validator or the client returns or throws
  is computed from it, so the calls to \<^verbatim>\<open>console\<close> are left out throughout. The same
  holds for the readings of \<^verbatim>\<open>Date.now()\<close> in the client.
\<close>

subsection \<open>The two declarations of validateEmailFormat\<close>

text \<open>The class \<^verbatim>\<open>[a-zA-Z0-9]\<close>.\<close>

definition alnum :: "code_unit \<Rightarrow> bool" where
  "alnum c \<longleftrightarrow> between 0x61 0x7A c \<or> between 0x41 0x5A c \<or> between 0x30 0x39 c"

text \<open>
  The class \<^verbatim>\<open>[a-zA-Z0-9.!#$%&'*+/=?^_`{|}~-]\<close>; the apostrophe is 0x27 and the
  backtick 0x60.
\<close>

definition local_part_char :: "code_unit \<Rightarrow> bool" where
  "local_part_char c \<longleftrightarrow>
     alnum c \<or> c \<in> set (js ''.!#$%&'') \<or> c = 0x27 \<or> c \<in> set (js ''*+/=?^_'') \<or> c = 0x60 \<or>
     c \<in> set (js ''{|}~-'')"

text \<open>The class \<^verbatim>\<open>[a-zA-Z0-9-]\<close>.\<close>

definition alnum_hyphen :: "code_unit \<Rightarrow> bool" where
  "alnum_hyphen c \<longleftrightarrow> alnum c \<or> c = 0x2D"

text \<open>\<^verbatim>\<open>[a-zA-Z0-9](?:[a-zA-Z0-9-]{0,61}[a-zA-Z0-9])?\<close>\<close>

definition domain_label :: rexp where
  "domain_label = Cat (Class alnum) (opt (Cat (at_most 61 (Class alnum_hyphen)) (Class alnum)))"

text \<open>The pattern of the declaration at line 28.\<close>

definition emailRegex_first :: rexp where
  "emailRegex_first =
     Cat (one_or_more (Class local_part_char))
       (Cat (lit 0x40)
         (Cat domain_label (Rep (Cat (lit 0x2E) domain_label))))"

definition validateEmailFormat_first :: "jsstring \<Rightarrow> bool" where
  "validateEmailFormat_first email = (let isValid = RegExp_test emailRegex_first email in isValid)"

text \<open>The class \<^verbatim>\<open>[^\s@]\<close>.\<close>

definition not_space_or_at :: "code_unit \<Rightarrow> bool" where
  "not_space_or_at c \<longleftrightarrow> \<not> (isWhiteSpace c \<or> c = 0x40)"

text \<open>The pattern of the declaration at line 61: \<^verbatim>\<open>^[^\s@]+@[^\s@]+\.[^\s@]+$\<close>.\<close>

definition emailRegex_second :: rexp where
  "emailRegex_second =
     Cat (one_or_more (Class not_space_or_at))
       (Cat (lit 0x40)
         (Cat (one_or_more (Class not_space_or_at))
           (Cat (lit 0x2E) (one_or_more (Class not_space_or_at)))))"

definition validateEmailFormat_second :: "jsstring \<Rightarrow> bool" where
  "validateEmailFormat_second email = (let isValid = RegExp_test emailRegex_second email in isValid)"

text \<open>
  The class body declares the static method \<^verbatim>\<open>validateEmailFormat\<close> twice. The
  members of a class body are defined on the constructor in source order, so the later
  definition of a name replaces the earlier one: the method that a call reaches is the
  last declaration.
\<close>

definition validateEmailFormat_declarations :: "(jsstring \<Rightarrow> bool) list" where
  "validateEmailFormat_declarations = [validateEmailFormat_first, validateEmailFormat_second]"

definition validateEmailFormat :: "jsstring \<Rightarrow> bool" where
  "validateEmailFormat = last validateEmailFormat_declarations"

subsection \<open>validateUrlFormat\<close>

text \<open>
  \<^verbatim>\<open>new URL(url)\<close> belongs to the platform. It is a parameter: \<open>URL url\<close> is the
  \<^verbatim>\<open>protocol\<close> of the parsed URL, and \<open>None\<close> when the constructor throws.
\<close>

type_synonym URL_constructor = "jsstring \<Rightarrow> jsstring option"

definition validateUrlFormat :: "URL_constructor \<Rightarrow> jsstring \<Rightarrow> bool" where
  "validateUrlFormat URL url =
     (case URL url of
        Some protocol \<Rightarrow>
          (let isValid = (protocol = js ''http:'' \<or> protocol = js ''https:'') in isValid)
      | None \<Rightarrow> False)"

subsection \<open>Entity validators\<close>

datatype validator_error = TypeError

text \<open>
  \<^verbatim>\<open>validateCommentObject\<close> reads \<^verbatim>\<open>comment.postId\<close> before any check, which throws a
  TypeError when \<^verbatim>\<open>comment\<close> is \<^verbatim>\<open>null\<close> or \<^verbatim>\<open>undefined\<close>.
\<close>

definition validateCommentObject :: "json option \<Rightarrow> validator_error + bool" where
  "validateCommentObject comment =
     (if comment = None \<or> comment = Some JNull then Inl TypeError
      else if \<not> truthy (property comment (js ''postId'')) \<or>
              \<not> truthy (property comment (js ''id'')) \<or>
              \<not> truthy (property comment (js ''name'')) \<or>
              \<not> truthy (property comment (js ''email'')) \<or>
              \<not> truthy (property comment (js ''body''))
        then Inr False
      else if typeof (property comment (js ''postId'')) \<noteq> Tnumber \<or>
              typeof (property comment (js ''id'')) \<noteq> Tnumber \<or>
              typeof (property comment (js ''name'')) \<noteq> Tstring \<or>
              typeof (property comment (js ''email'')) \<noteq> Tstring \<or>
              typeof (property comment (js ''body'')) \<noteq> Tstring
        then Inr False
      else if \<not> validateEmailFormat (asString (property comment (js ''email'')))
        then Inr False
      else if length (trim (asString (property comment (js ''name'')))) = 0 \<or>
              length (trim (asString (property comment (js ''email'')))) = 0 \<or>
              length (trim (asString (property comment (js ''body'')))) = 0
        then Inr False
      else Inr True)"

text \<open>
  The other four validators are called as methods of the class
  (\<^verbatim>\<open>ResponseValidator.validatePhoto(photo, 1)\<close>), so that \<^verbatim>\<open>this\<close> is the class. The
  optional expected foreign key is a \<open>number option\<close>, and
  \<open>differs_from_expected actual expected\<close> is the condition
  \<^verbatim>\<open>expected !== undefined && actual !== expected\<close>.
\<close>

definition differs_from_expected :: "number \<Rightarrow> number option \<Rightarrow> bool" where
  "differs_from_expected actual expected =
     (case expected of None \<Rightarrow> False | Some e \<Rightarrow> \<not> strict_eq actual e)"

definition validatePhoto :: "URL_constructor \<Rightarrow> json option \<Rightarrow> number option \<Rightarrow> bool" where
  "validatePhoto URL photo expectedAlbumId =
     (if \<not> isPhoto photo then False
      else if \<not> validateUrlFormat URL (asString (property photo (js ''url''))) then False
      else if \<not> validateUrlFormat URL (asString (property photo (js ''thumbnailUrl''))) then False
      else if differs_from_expected (asNumber (property photo (js ''albumId''))) expectedAlbumId then False
      else True)"

definition validateAlbum :: "json option \<Rightarrow> number option \<Rightarrow> bool" where
  "validateAlbum album expectedUserId =
     (if \<not> isAlbum album then False
      else if differs_from_expected (asNumber (property album (js ''userId''))) expectedUserId then False
      else if \<not> truthy (property album (js ''title'')) \<or>
              length (trim (asString (property album (js ''title'')))) = 0
        then False
      else True)"

definition validateTodo :: "json option \<Rightarrow> number option \<Rightarrow> bool" where
  "validateTodo todo expectedUserId =
     (if \<not> isTodo todo then False
      else if typeof (property todo (js ''completed'')) \<noteq> Tboolean then False
      else if differs_from_expected (asNumber (property todo (js ''userId''))) expectedUserId then False
      else if \<not> truthy (property todo (js ''title'')) \<or>
              length (trim (asString (property todo (js ''title'')))) = 0
        then False
      else True)"

definition validatePost :: "json option \<Rightarrow> number option \<Rightarrow> bool" where
  "validatePost post expectedUserId =
     (if \<not> isPost post then False
      else if differs_from_expected (asNumber (property post (js ''userId''))) expectedUserId then False
      else if \<not> truthy (property post (js ''title'')) \<or>
              length (trim (asString (property post (js ''title'')))) = 0
        then False
      else if \<not> truthy (property post (js ''body'')) \<or>
              length (trim (asString (property post (js ''body'')))) = 0
        then False
      else True)"

subsection \<open>validateArrayResponse\<close>

text \<open>
  The item validator is any function of the item and the extra arguments; it returns a
  boolean or throws. To state which items it is applied to, the loop keeps the list of
  its applications, each with the index and the item, in the order they happen.
\<close>

fun isArray :: "json option \<Rightarrow> bool" where
  "isArray (Some (JArr xs)) = True"
| "isArray v = False"

fun elements :: "json option \<Rightarrow> json list" where
  "elements (Some (JArr xs)) = xs"
| "elements v = []"

function validateArrayResponse_loop ::
  "(json option \<Rightarrow> 'a \<Rightarrow> 'e + bool) \<Rightarrow> 'a \<Rightarrow> json list \<Rightarrow> nat \<Rightarrow> (nat \<times> json) list \<Rightarrow>
     ('e + bool) \<times> (nat \<times> json) list" where
  "validateArrayResponse_loop validator validatorArgs xs i applied =
     (if i < length xs then
        (let item = xs ! i; applied' = applied @ [(i, item)] in
         case validator (Some item) validatorArgs of
           Inl e \<Rightarrow> (Inl e, applied')
         | Inr ok \<Rightarrow>
             if \<not> ok then (Inr False, applied')
             else validateArrayResponse_loop validator validatorArgs xs (i + 1) applied')
      else (Inr True, applied))"
  by pat_completeness auto
termination
  by (relation "measure (\<lambda>(validator, validatorArgs, xs, i, applied). length xs - i)") auto

definition validateArrayResponse ::
  "ApiResponse \<Rightarrow> (json option \<Rightarrow> 'a \<Rightarrow> 'e + bool) \<Rightarrow> 'a \<Rightarrow> ('e + bool) \<times> (nat \<times> json) list" where
  "validateArrayResponse response validator validatorArgs =
     (if \<not> truthy (data response) \<or> \<not> isArray (data response) then (Inr False, [])
      else if length (elements (data response)) = 0 then (Inr True, [])
      else validateArrayResponse_loop validator validatorArgs (elements (data response)) 0 [])"

subsection \<open>validateApiResponse\<close>

text \<open>
  A failing \<^verbatim>\<open>expect\<close> throws; the thrown value says which of the expectations of
  lines 287 to 300 it was. \<open>and_then\<close> is the sequencing of two statements.
\<close>

datatype expectation =
    Status_toBe
  | Data_toBeDefined
  | Error_toBeUndefined
  | Error_toBeDefined
  | Data_toBeUndefined
  | Headers_toBeDefined
  | Typeof_headers_toBe_object

datatype assertion_error = AssertionFailure expectation

definition expect :: "bool \<Rightarrow> expectation \<Rightarrow> assertion_error + unit" where
  "expect holds what = (if holds then Inr () else Inl (AssertionFailure what))"

fun and_then :: "'e + unit \<Rightarrow> 'e + 'a \<Rightarrow> 'e + 'a" where
  "and_then (Inl e) rest = Inl e"
| "and_then (Inr u) rest = rest"

definition validateApiResponse :: "ApiResponse \<Rightarrow> int option \<Rightarrow> assertion_error + unit" where
  "validateApiResponse response expectedStatus_arg =
     (let expectedStatus = (case expectedStatus_arg of None \<Rightarrow> 200 | Some e \<Rightarrow> e) in
      and_then (expect (status response = expectedStatus) Status_toBe)
     (and_then
        (if expectedStatus = 200 then
           and_then (expect (data response \<noteq> None) Data_toBeDefined)
                    (expect (error response = None) Error_toBeUndefined)
         else
           and_then (expect (error response \<noteq> None) Error_toBeDefined)
                    (expect (data response = None) Data_toBeUndefined))
     (and_then (expect (headers response \<noteq> None) Headers_toBeDefined)
               (expect (typeof (headers response) = Tobject) Typeof_headers_toBe_object))))"

section \<open>utils/api-client.ts\<close>

text \<open>
  Playwright's \<^verbatim>\<open>APIResponse\<close>, as far as the client reads it: \<^verbatim>\<open>status()\<close>,
  \<^verbatim>\<open>json()\<close>, which returns the parsed body or throws, and \<^verbatim>\<open>headersArray()\<close>. A
  thrown value is either an \<^verbatim>\<open>Error\<close> object with its message or some other value with
  its \<^verbatim>\<open>String(...)\<close> rendering: that is all the \<^verbatim>\<open>catch\<close> block of \<^verbatim>\<open>get\<close> reads.
\<close>

datatype thrown = ErrorObject jsstring | OtherValue jsstring

record APIResponse =
  status_code :: int
  json_result :: "thrown + json"
  headersArray :: "(jsstring \<times> jsstring) list"

record http_get =
  req_url :: jsstring
  req_headers :: "(jsstring \<times> jsstring) list"
  req_timeout :: int

text \<open>
  The \<^verbatim>\<open>APIRequestContext\<close> is the network with the server behind it: for the \<open>k\<close>-th
  request issued (counting from 0) it says whether \<^verbatim>\<open>request.get\<close> throws (connection
  refused, timeout) or which response it returns. The state that the client's methods
  change is the list of the requests issued so far.
\<close>

type_synonym APIRequestContext = "nat \<Rightarrow> http_get \<Rightarrow> thrown + APIResponse"

record ApiClient =
  request :: APIRequestContext
  baseUrl :: jsstring

record get_options =
  opt_expectedStatus :: "int option"
  opt_timeout :: "int option"
  opt_headers :: "(jsstring \<times> jsstring) list option"

text \<open>The errors that \<^verbatim>\<open>get\<close> throws: \<^verbatim>\<open>new Error(message)\<close>.\<close>

datatype js_error = Error jsstring

text \<open>
  A handler tells the kinds of errors apart by their class, which \<^verbatim>\<open>name\<close> reports.
  The client makes its errors with \<^verbatim>\<open>new Error(...)\<close> (lines 60 and 97) and declares no
  class of errors of its own.
\<close>

fun error_name :: "js_error \<Rightarrow> jsstring" where
  "error_name (Error message) = js ''Error''"

text \<open>
  The \<^verbatim>\<open>catch\<close> block of lines 89 to 98; \<open>error_message\<close> is
  \<^verbatim>\<open>error instanceof Error ? error.message : String(error)\<close>.
\<close>

fun error_message :: "thrown \<Rightarrow> jsstring" where
  "error_message (ErrorObject message) = message"
| "error_message (OtherValue rendering) = rendering"

definition get_catch :: "jsstring \<Rightarrow> thrown \<Rightarrow> js_error" where
  "get_catch url err = Error (js ''API request to '' @ url @ js '' failed: '' @ error_message err)"

text \<open>The request of lines 39 to 45, from the endpoint and the options (lines 28, 29).\<close>

definition get_request :: "ApiClient \<Rightarrow> jsstring \<Rightarrow> get_options \<Rightarrow> http_get" where
  "get_request this endpoint options =
     (let timeout = (case opt_timeout options of None \<Rightarrow> 10000 | Some t \<Rightarrow> t);
          extraHeaders = (case opt_headers options of None \<Rightarrow> [] | Some h \<Rightarrow> h);
          url = baseUrl this @ endpoint
      in \<lparr>req_url = url,
          req_headers =
            Object_fromEntries ((js ''Accept'', js ''application/json'') # extraHeaders),
          req_timeout = timeout\<rparr>)"

text \<open>
  \<^verbatim>\<open>expectedStatus\<close> is read from the options (line 28) and then used in calls to
  \<^verbatim>\<open>console\<close> only (lines 33, 64 to 67 and 81 to 85).
\<close>

definition get ::
  "ApiClient \<Rightarrow> jsstring \<Rightarrow> get_options \<Rightarrow> http_get list \<Rightarrow> (js_error + ApiResponse) \<times> http_get list" where
  "get this endpoint options sent =
     (let expectedStatus = (case opt_expectedStatus options of None \<Rightarrow> 200 | Some e \<Rightarrow> e);
          url = baseUrl this @ endpoint;
          req = get_request this endpoint options
      in case request this (length sent) req of
           Inl err \<Rightarrow> (Inl (get_catch url err), sent @ [req])
         | Inr response \<Rightarrow>
             (case json_result response of
                Inl parseError \<Rightarrow>
                  (Inl (get_catch url (ErrorObject (js ''Invalid JSON response from '' @ url))),
                   sent @ [req])
              | Inr responseData \<Rightarrow>
                  (let isSuccessStatus = (status_code response \<ge> 200 \<and> status_code response < 300);
                       apiResponse =
                         \<lparr>data = (if isSuccessStatus then Some responseData else None),
                          error = (if \<not> isSuccessStatus then Some responseData else None),
                          status = status_code response,
                          headers =
                            Some (JObj (map (\<lambda>(name, v). (name, JStr v))
                                          (Object_fromEntries (headersArray response))))\<rparr>
                   in (Inr apiResponse, sent @ [req]))))"

subsection \<open>concurrentRequests\<close>

text \<open>
  \<^verbatim>\<open>Array.from({ length: concurrency }, ...)\<close> calls \<^verbatim>\<open>this.get(endpoint)\<close> once per
  index, in index order; each call issues its request before the next one starts. The
  responses then arrive in any order, which changes no envelope and no error.
  \<open>issue_requests\<close> is this sequence of calls with their results.
\<close>

definition no_options :: get_options where
  "no_options = \<lparr>opt_expectedStatus = None, opt_timeout = None, opt_headers = None\<rparr>"

fun issue_requests ::
  "ApiClient \<Rightarrow> jsstring \<Rightarrow> nat \<Rightarrow> http_get list \<Rightarrow> (js_error + ApiResponse) list \<times> http_get list" where
  "issue_requests this endpoint 0 sent = ([], sent)"
| "issue_requests this endpoint (Suc n) sent =
     (let (r, sent') = get this endpoint no_options sent;
          (rs, sent'') = issue_requests this endpoint n sent'
      in (r # rs, sent''))"

text \<open>
  \<^verbatim>\<open>Promise.all\<close> fulfils with all the values, in the order of the promises, when every
  promise fulfils, and rejects with the reason of the promise that rejects first in
  time. \<open>settled\<close> lists the indices of the promises in the order they settle; an index
  it leaves out settles after those it names.
\<close>

definition Promise_all :: "nat list \<Rightarrow> ('e + 'a) list \<Rightarrow> 'e + 'a list" where
  "Promise_all settled promises =
     (case [e. i \<leftarrow> settled @ [0..<length promises], i < length promises, Inl e \<leftarrow> [promises ! i]] of
        [] \<Rightarrow> Inr [v. Inr v \<leftarrow> promises]
      | e # es \<Rightarrow> Inl e)"

text \<open>
  The length of the array is \<^verbatim>\<open>ToLength(concurrency)\<close>: no element for a negative
  number. (The limit of \<open>2\<^sup>3\<^sup>2 - 1\<close> elements of an array is not modelled.)
\<close>

definition concurrentRequests ::
  "ApiClient \<Rightarrow> nat list \<Rightarrow> jsstring \<Rightarrow> int option \<Rightarrow> http_get list \<Rightarrow>
     (js_error + ApiResponse list) \<times> http_get list" where
  "concurrentRequests this settled endpoint concurrency_arg sent =
     (let concurrency = (case concurrency_arg of None \<Rightarrow> 10 | Some n \<Rightarrow> n);
          (requestPromises, sent') = issue_requests this endpoint (nat concurrency) sent
      in case Promise_all settled requestPromises of
           Inr responses \<Rightarrow> (Inr responses, sent')
         | Inl err \<Rightarrow> (Inl err, sent'))"

subsection \<open>healthCheck\<close>

text \<open>The options \<^verbatim>\<open>{ expectedStatus: 200 }\<close>.\<close>

definition health_options :: get_options where
  "health_options = \<lparr>opt_expectedStatus = Some 200, opt_timeout = None, opt_headers = None\<rparr>"

text \<open>
  The result type keeps a place for an error, so that "never throws" is a statement about
  the function and not a choice of type.
\<close>

definition healthCheck :: "ApiClient \<Rightarrow> http_get list \<Rightarrow> (js_error + bool) \<times> http_get list" where
  "healthCheck this sent =
     (case get this (js ''/health'') health_options sent of
        (Inr response, sent') \<Rightarrow> (Inr (status response = 200), sent')
      | (Inl err, sent') \<Rightarrow> (Inr False, sent'))"

section \<open>Example inputs\<close>

text \<open>
  Servers, as request contexts: one that answers every request with 404 and an error
  body, one that answers 201, one whose body is not JSON, one that is offline, so that
  the request fails with the message of the transport, one that answers 200, one that
  refuses the connection and one that lets the second request time out.
\<close>

definition not_found_server :: APIRequestContext where
  "not_found_server k req =
     Inr \<lparr>status_code = 404,
          json_result = Inr (JObj [(js ''error'', JStr (js ''No comments found for this post''))]),
          headersArray = [(js ''content-type'', js ''application/json'')]\<rparr>"

definition created_server :: APIRequestContext where
  "created_server k req =
     Inr \<lparr>status_code = 201, json_result = Inr (JObj [(js ''id'', JNum (Num 101))]), headersArray = []\<rparr>"

definition garbled_server :: APIRequestContext where
  "garbled_server k req =
     Inr \<lparr>status_code = 200, json_result = Inl (ErrorObject (js ''Unexpected token <'')), headersArray = []\<rparr>"

definition offline_server :: APIRequestContext where
  "offline_server k req =
     Inl (ErrorObject (js ''apiRequestContext.get: connect ECONNREFUSED 127.0.0.1:3000''))"

definition healthy_server :: APIRequestContext where
  "healthy_server k req =
     Inr \<lparr>status_code = 200,
          json_result = Inr (JObj [(js ''status'', JStr (js ''healthy''))]),
          headersArray = []\<rparr>"

definition refusing_server :: APIRequestContext where
  "refusing_server k req = Inl (ErrorObject (js ''connect ECONNREFUSED''))"

definition flaky_server :: APIRequestContext where
  "flaky_server k req =
     (if k = 1 then Inl (ErrorObject (js ''Timeout 10000ms exceeded'')) else healthy_server k req)"

definition healthy_client :: ApiClient where
  "healthy_client = \<lparr>request = healthy_server, baseUrl = js ''http://localhost:3000''\<rparr>"

definition flaky_client :: ApiClient where
  "flaky_client = \<lparr>request = flaky_server, baseUrl = js ''http://localhost:3000''\<rparr>"

definition garbled_client :: ApiClient where
  "garbled_client = \<lparr>request = garbled_server, baseUrl = js ''http://api''\<rparr>"

definition offline_client :: ApiClient where
  "offline_client = \<lparr>request = offline_server, baseUrl = js ''http://api''\<rparr>"

text \<open>
  An item validator and an array whose item at index 1 it rejects.
\<close>

definition isNumberItem :: "json option \<Rightarrow> unit \<Rightarrow> validator_error + bool" where
  "isNumberItem item args = Inr (typeof item = Tnumber)"

definition three_items :: "json list" where
  "three_items = [JNum (Num 1), JStr (js ''two''), JNum (Num 3)]"

text \<open>
  A comment of post 0 and an album of user 0, both of the declared shape.
\<close>

definition comment_of_post_0 :: json where
  "comment_of_post_0 =
     JObj [(js ''postId'', JNum (Num 0)), (js ''id'', JNum (Num 1)),
           (js ''name'', JStr (js ''id labore'')),
           (js ''email'', JStr (js ''Eliseo@gardner.biz'')),
           (js ''body'', JStr (js ''laudantium enim quasi''))]"

definition album_of_user_0 :: json where
  "album_of_user_0 =
     JObj [(js ''userId'', JNum (Num 0)), (js ''id'', JNum (Num 0)),
           (js ''title'', JStr (js ''quidem molestiae enim''))]"

section \<open>The matcher decides the language of a pattern\<close>

lemma lang_cat [simp]: "lang (cat r s) = lang (Cat r s)"
  by (induction r s rule: cat.induct) auto

lemma lang_alt [simp]: "lang (alt r s) = lang (Or r s)"
  by (induction r s rule: alt.induct) auto

lemma nullable_iff: "nullable r \<longleftrightarrow> [] \<in> lang r"
  by (induction r) (auto intro: star.intros)

lemma star_cons:
  "c # w \<in> star A \<longleftrightarrow> (\<exists>u v. w = u @ v \<and> c # u \<in> A \<and> v \<in> star A)"
proof
  assume "c # w \<in> star A"
  then show "\<exists>u v. w = u @ v \<and> c # u \<in> A \<and> v \<in> star A"
  proof (induction "c # w" arbitrary: w rule: star.induct)
    case (star_step u v)
    then show ?case
      by (cases u) auto
  qed
next
  assume "\<exists>u v. w = u @ v \<and> c # u \<in> A \<and> v \<in> star A"
  then obtain u v where "w = u @ v" "c # u \<in> A" "v \<in> star A" by blast
  then show "c # w \<in> star A"
    using star_step [of "c # u" A v] by simp
qed

lemma lang_deriv: "w \<in> lang (deriv c r) \<longleftrightarrow> c # w \<in> lang r"
proof (induction r arbitrary: w)
  case (Cat r s)
  then show ?case
    by (auto simp: nullable_iff Cons_eq_append_conv)
next
  case (Rep r)
  then show ?case
    by (auto simp: star_cons)
qed auto

lemma lang_fold_deriv: "w \<in> lang (fold deriv s r) \<longleftrightarrow> s @ w \<in> lang r"
  by (induction s arbitrary: r) (auto simp: lang_deriv)

lemma RegExp_test_iff: "RegExp_test r s \<longleftrightarrow> s \<in> lang r"
  by (simp add: RegExp_test_def nullable_iff lang_fold_deriv)

lemma star_Class: "w \<in> star {[c] | c. P c} \<longleftrightarrow> list_all P w"
proof
  assume "w \<in> star {[c] | c. P c}"
  then show "list_all P w"
    by (induction rule: star.induct) auto
next
  assume "list_all P w"
  then show "w \<in> star {[c] | c. P c}"
  proof (induction w)
    case Nil
    show ?case by (rule star_nil)
  next
    case (Cons a w)
    then have "[a] \<in> {[c] | c. P c}" and "w \<in> star {[c] | c. P c}" by auto
    then have "[a] @ w \<in> star {[c] | c. P c}" by (rule star_step)
    then show ?case by simp
  qed
qed

lemma lang_one_or_more_Class:
  "w \<in> lang (one_or_more (Class P)) \<longleftrightarrow> w \<noteq> [] \<and> list_all P w"
proof (cases w)
  case Nil
  then show ?thesis by (simp add: one_or_more_def)
next
  case (Cons a w')
  have "a # w' \<in> lang (one_or_more (Class P)) \<longleftrightarrow> P a \<and> list_all P w'"
  proof
    assume "a # w' \<in> lang (one_or_more (Class P))"
    then show "P a \<and> list_all P w'"
      by (auto simp: one_or_more_def star_Class)
  next
    assume "P a \<and> list_all P w'"
    then have "[a] \<in> lang (Class P)" and "w' \<in> lang (Rep (Class P))"
      by (simp_all add: star_Class)
    then have "[a] @ w' \<in> lang (Cat (Class P) (Rep (Class P)))"
      unfolding lang.simps(4) by blast
    then show "a # w' \<in> lang (one_or_more (Class P))"
      by (simp add: one_or_more_def)
  qed
  with Cons show ?thesis by simp
qed

lemma lang_lit: "lang (lit a) = {[a]}"
  by (auto simp: lit_def)

lemma lang_emailRegex_second:
  "s \<in> lang emailRegex_second \<longleftrightarrow>
     (\<exists>local domain tld.
        s = local @ js ''@'' @ domain @ js ''.'' @ tld \<and>
        local \<noteq> [] \<and> list_all not_space_or_at local \<and>
        domain \<noteq> [] \<and> list_all not_space_or_at domain \<and>
        tld \<noteq> [] \<and> list_all not_space_or_at tld)"
proof -
  have at: "js ''@'' = [0x40]" and dot: "js ''.'' = [0x2E]"
    by (simp_all add: js_def)
  have "s \<in> lang emailRegex_second \<longleftrightarrow>
     (\<exists>local r1. s = local @ r1 \<and> local \<in> lang (one_or_more (Class not_space_or_at)) \<and>
        (\<exists>r2. r1 = [0x40] @ r2 \<and>
          (\<exists>domain r3. r2 = domain @ r3 \<and> domain \<in> lang (one_or_more (Class not_space_or_at)) \<and>
             (\<exists>tld. r3 = [0x2E] @ tld \<and> tld \<in> lang (one_or_more (Class not_space_or_at))))))"
    unfolding emailRegex_second_def lang.simps(4) lang_lit by blast
  also have "\<dots> \<longleftrightarrow> (\<exists>local domain tld.
        s = local @ js ''@'' @ domain @ js ''.'' @ tld \<and>
        local \<noteq> [] \<and> list_all not_space_or_at local \<and>
        domain \<noteq> [] \<and> list_all not_space_or_at domain \<and>
        tld \<noteq> [] \<and> list_all not_space_or_at tld)"
    unfolding lang_one_or_more_Class at dot by blast
  finally show ?thesis .
qed

lemma validateEmailFormat_is_second: "validateEmailFormat = validateEmailFormat_second"
  by (simp add: validateEmailFormat_def validateEmailFormat_declarations_def)

section \<open>The email format check\<close>

text \<open>
  C3. For every string \<open>s\<close>, the \<^verbatim>\<open>validateEmailFormat\<close> that a call reaches (the
  last of the two declarations) returns true if and only if \<open>s\<close> matches
  \<^verbatim>\<open>^[^\s@]+@[^\s@]+\.[^\s@]+$\<close>, that is, if and only if \<open>s\<close> is a non-empty local
  part, an at sign, a non-empty domain, a dot and a non-empty rest, none of the three
  parts holding white space or an at sign. It returns true on \<^verbatim>\<open>a@b.co\<close> and false on
  \<^verbatim>\<open>not-an-email\<close> and on \<^verbatim>\<open>a@b\<close>. The first declaration plays no part in the result.
\<close>

theorem validateEmailFormat_effective:
  "(validateEmailFormat s \<longleftrightarrow> s \<in> lang emailRegex_second) \<and>
   (s \<in> lang emailRegex_second \<longleftrightarrow>
     (\<exists>local domain tld.
        s = local @ js ''@'' @ domain @ js ''.'' @ tld \<and>
        local \<noteq> [] \<and> list_all not_space_or_at local \<and>
        domain \<noteq> [] \<and> list_all not_space_or_at domain \<and>
        tld \<noteq> [] \<and> list_all not_space_or_at tld)) \<and>
   validateEmailFormat (js ''a@b.co'') \<and>
   \<not> validateEmailFormat (js ''not-an-email'') \<and>
   \<not> validateEmailFormat (js ''a@b'')"
proof -
  have "validateEmailFormat s \<longleftrightarrow> s \<in> lang emailRegex_second"
    by (simp add: validateEmailFormat_is_second validateEmailFormat_second_def RegExp_test_iff)
  moreover have "validateEmailFormat (js ''a@b.co'')" by code_simp
  moreover have "\<not> validateEmailFormat (js ''not-an-email'')" by code_simp
  moreover have "\<not> validateEmailFormat (js ''a@b'')" by code_simp
  ultimately show ?thesis
    using lang_emailRegex_second [of s] by blast
qed

theorem validateEmailFormat_effective_witness:
  "js ''a@b.co'' \<in> lang emailRegex_second \<and> js ''a@b'' \<notin> lang emailRegex_second"
  using validateEmailFormat_effective [of "js ''a@b.co''"] validateEmailFormat_effective [of "js ''a@b''"]
  by blast

text \<open>
  The first declaration is not the one that runs: it would accept \<^verbatim>\<open>a@b\<close>, which the
  method rejects.
\<close>

lemma validateEmailFormat_first_differs:
  "validateEmailFormat_first (js ''a@b'') \<and> \<not> validateEmailFormat (js ''a@b'')"
  by code_simp

section \<open>The envelope of get\<close>

lemma get_request_expectedStatus:
  "get_request this endpoint (options\<lparr>opt_expectedStatus := e\<rparr>) = get_request this endpoint options"
  by (simp add: get_request_def)

lemma get_expectedStatus:
  "get this endpoint (options\<lparr>opt_expectedStatus := e\<rparr>) sent = get this endpoint options sent"
  by (simp add: get_def get_request_expectedStatus)

lemma get_sent: "snd (get this endpoint options sent) = sent @ [get_request this endpoint options]"
  by (simp add: get_def Let_def split: sum.splits)

lemma req_url_get_request: "req_url (get_request this endpoint options) = baseUrl this @ endpoint"
  by (simp add: get_request_def)

lemma get_completed:
  assumes "request this (length sent) (get_request this endpoint options) = Inr response"
      and "json_result response = Inr body"
  shows "get this endpoint options sent =
           (Inr \<lparr>data = (if 200 \<le> status_code response \<and> status_code response < 300 then Some body else None),
                 error = (if \<not> (200 \<le> status_code response \<and> status_code response < 300) then Some body else None),
                 status = status_code response,
                 headers = Some (JObj (map (\<lambda>(name, v). (name, JStr v))
                                        (Object_fromEntries (headersArray response))))\<rparr>,
            sent @ [get_request this endpoint options])"
  using assms by (simp add: get_def Let_def)

lemma get_transport_failure:
  "request this (length sent) (get_request this endpoint options) = Inl err \<Longrightarrow>
     fst (get this endpoint options sent) = Inl (get_catch (baseUrl this @ endpoint) err)"
  by (simp add: get_def Let_def)

lemma get_parse_failure:
  "request this (length sent) (get_request this endpoint options) = Inr response \<Longrightarrow>
   json_result response = Inl parseError \<Longrightarrow>
     fst (get this endpoint options sent) =
       Inl (get_catch (baseUrl this @ endpoint)
              (ErrorObject (js ''Invalid JSON response from '' @ (baseUrl this @ endpoint))))"
  by (simp add: get_def Let_def)

text \<open>
  C1. When the HTTP exchange completes and the body parses, \<^verbatim>\<open>get\<close> returns an
  envelope. Its \<^verbatim>\<open>data\<close> is the parsed body and its \<^verbatim>\<open>error\<close> is undefined exactly
  when the status is in [200,300); otherwise its \<^verbatim>\<open>error\<close> is the parsed body and its
  \<^verbatim>\<open>data\<close> is undefined. \<^verbatim>\<open>status\<close> and \<^verbatim>\<open>headers\<close> are those of the response,
  \<^verbatim>\<open>data\<close> and \<^verbatim>\<open>error\<close> are never both defined, and the envelope is the same for
  every \<^verbatim>\<open>expectedStatus\<close> the caller passes.
\<close>

theorem get_classifies_by_status:
  assumes exchange: "request this (length sent) (get_request this endpoint options) = Inr response"
      and parsed: "json_result response = Inr body"
  shows "\<exists>envelope.
           get this endpoint options sent = (Inr envelope, sent @ [get_request this endpoint options]) \<and>
           ((data envelope = Some body \<and> error envelope = None) \<longleftrightarrow>
              (200 \<le> status_code response \<and> status_code response < 300)) \<and>
           ((error envelope = Some body \<and> data envelope = None) \<longleftrightarrow>
              \<not> (200 \<le> status_code response \<and> status_code response < 300)) \<and>
           status envelope = status_code response \<and>
           headers envelope =
             Some (JObj (map (\<lambda>(name, v). (name, JStr v)) (Object_fromEntries (headersArray response)))) \<and>
           \<not> (data envelope \<noteq> None \<and> error envelope \<noteq> None) \<and>
           (\<forall>e. fst (get this endpoint (options\<lparr>opt_expectedStatus := e\<rparr>) sent) = Inr envelope)"
  using exchange parsed
  by (simp add: get_expectedStatus) (simp add: get_def Let_def)

theorem get_classifies_by_status_witness:
  "\<exists>envelope.
     fst (get \<lparr>request = not_found_server, baseUrl = js ''http://localhost:3000''\<rparr>
            (js ''/posts/999/comments'')
            \<lparr>opt_expectedStatus = Some 200, opt_timeout = None, opt_headers = None\<rparr> []) = Inr envelope \<and>
     data envelope = None \<and>
     error envelope = Some (JObj [(js ''error'', JStr (js ''No comments found for this post''))]) \<and>
     status envelope = 404"
  using get_classifies_by_status
    [of "\<lparr>request = not_found_server, baseUrl = js ''http://localhost:3000''\<rparr>" "[]"
        "js ''/posts/999/comments''"
        "\<lparr>opt_expectedStatus = Some 200, opt_timeout = None, opt_headers = None\<rparr>"
        "\<lparr>status_code = 404,
          json_result = Inr (JObj [(js ''error'', JStr (js ''No comments found for this post''))]),
          headersArray = [(js ''content-type'', js ''application/json'')]\<rparr>"
        "JObj [(js ''error'', JStr (js ''No comments found for this post''))]"]
  by (auto simp: not_found_server_def)

section \<open>A body that does not parse\<close>

text \<open>
  C7, as the code has it. When the exchange completes and the body does not parse,
  \<^verbatim>\<open>get\<close> throws and returns no envelope. What it throws is a plain \<^verbatim>\<open>Error\<close> with the
  message \<^verbatim>\<open>API request to <url> failed: Invalid JSON response from <url>\<close>. It is made
  by the \<^verbatim>\<open>catch\<close> block that also turns a transport failure into a plain \<^verbatim>\<open>Error\<close>
  with the message \<^verbatim>\<open>API request to <url> failed: <message of the failure>\<close>: the two
  errors are of one class and differ in the text of the message only, whenever the
  message of the transport failure is another text than
  \<^verbatim>\<open>Invalid JSON response from <url>\<close>.
\<close>

theorem get_parse_failure_raises:
  assumes "request this (length sent) (get_request this endpoint options) = Inr response"
      and "json_result response = Inl parseError"
  shows "\<exists>e.
           fst (get this endpoint options sent) = Inl e \<and>
           e = Error (js ''API request to '' @ (baseUrl this @ endpoint) @ js '' failed: '' @
                      js ''Invalid JSON response from '' @ (baseUrl this @ endpoint)) \<and>
           error_name e = js ''Error'' \<and>
           (\<forall>envelope. fst (get this endpoint options sent) \<noteq> Inr envelope) \<and>
           (\<forall>other err.
              baseUrl other = baseUrl this \<and>
              request other (length sent) (get_request other endpoint options) = Inl err \<longrightarrow>
                (\<exists>e'.
                   fst (get other endpoint options sent) = Inl e' \<and>
                   e' = Error (js ''API request to '' @ (baseUrl this @ endpoint) @ js '' failed: '' @
                               error_message err) \<and>
                   error_name e' = error_name e \<and>
                   (e' = e \<longleftrightarrow>
                      error_message err =
                        js ''Invalid JSON response from '' @ (baseUrl this @ endpoint))))"
  using assms by (simp add: get_def get_catch_def Let_def)

theorem get_parse_failure_raises_witness:
  "fst (get garbled_client (js ''/x'') no_options []) =
     Inl (Error (js ''API request to http://api/x failed: Invalid JSON response from http://api/x''))"
  using get_parse_failure_raises
    [of garbled_client "[]" "js ''/x''" no_options
        "\<lparr>status_code = 200, json_result = Inl (ErrorObject (js ''Unexpected token <'')), headersArray = []\<rparr>"
        "ErrorObject (js ''Unexpected token <'')"]
  by (simp add: garbled_client_def garbled_server_def js_def)

text \<open>
  C7, as the claim has it, fails: there is no \<^verbatim>\<open>ParseError\<close>. For the server whose body
  is not JSON and for the server that is offline \<^verbatim>\<open>get\<close> throws errors of the same class,
  \<^verbatim>\<open>Error\<close>, with the same beginning of the message.
\<close>

theorem get_parse_failure_is_plain_Error:
  "garbled_server 0 (get_request garbled_client (js ''/x'') no_options) =
     Inr \<lparr>status_code = 200, json_result = Inl (ErrorObject (js ''Unexpected token <'')),
          headersArray = []\<rparr> \<and>
   offline_server 0 (get_request offline_client (js ''/x'') no_options) =
     Inl (ErrorObject (js ''apiRequestContext.get: connect ECONNREFUSED 127.0.0.1:3000'')) \<and>
   fst (get garbled_client (js ''/x'') no_options []) =
     Inl (Error (js ''API request to http://api/x failed: Invalid JSON response from http://api/x'')) \<and>
   fst (get offline_client (js ''/x'') no_options []) =
     Inl (Error (js ''API request to http://api/x failed: apiRequestContext.get: connect ECONNREFUSED 127.0.0.1:3000'')) \<and>
   error_name (Error (js ''API request to http://api/x failed: Invalid JSON response from http://api/x'')) =
     js ''Error'' \<and>
   error_name (Error (js ''API request to http://api/x failed: apiRequestContext.get: connect ECONNREFUSED 127.0.0.1:3000'')) =
     js ''Error''"
  by (simp add: get_def get_catch_def Let_def garbled_client_def offline_client_def
        garbled_server_def offline_server_def js_def)

section \<open>validateApiResponse\<close>





text \<open>
  C10. An envelope that \<^verbatim>\<open>get\<close> returns with a status in [201,300) has \<^verbatim>\<open>data\<close>
  defined and \<^verbatim>\<open>error\<close> undefined, and \<^verbatim>\<open>validateApiResponse\<close> throws on it when given
  its own status, at the expectation that \<^verbatim>\<open>error\<close> be defined; no expected status makes
  \<^verbatim>\<open>validateApiResponse\<close> return normally on such an envelope.
\<close>

theorem get_2xx_envelope_fails_validateApiResponse:
  assumes "get this endpoint options sent = (Inr envelope, sent')"
      and "201 \<le> status envelope" and "status envelope < 300"
  shows "data envelope \<noteq> None \<and> error envelope = None \<and>
         validateApiResponse envelope (Some (status envelope)) = Inl (AssertionFailure Error_toBeDefined) \<and>
         (\<forall>expected. validateApiResponse envelope expected \<noteq> Inr ())"
proof -
  from assms have de: "data envelope \<noteq> None \<and> error envelope = None"
    by (auto simp: get_def Let_def split: sum.splits if_splits)
  with assms(2) have "validateApiResponse envelope (Some (status envelope)) = Inl (AssertionFailure Error_toBeDefined)"
    by (simp add: validateApiResponse_def expect_def)
  moreover have "validateApiResponse envelope expected \<noteq> Inr ()" for expected
    using de assms(2) by (cases expected) (auto simp: validateApiResponse_def expect_def)
  ultimately show ?thesis using de by blast
qed

theorem get_2xx_envelope_fails_validateApiResponse_witness:
  "\<exists>envelope.
     fst (get \<lparr>request = created_server, baseUrl = js ''http://localhost:3000''\<rparr> (js ''/posts'')
            \<lparr>opt_expectedStatus = Some 201, opt_timeout = None, opt_headers = None\<rparr> []) = Inr envelope \<and>
     status envelope = 201 \<and> data envelope \<noteq> None \<and> error envelope = None \<and>
     validateApiResponse envelope (Some 201) = Inl (AssertionFailure Error_toBeDefined)"
proof -
  obtain envelope sent' where g:
    "get \<lparr>request = created_server, baseUrl = js ''http://localhost:3000''\<rparr> (js ''/posts'')
            \<lparr>opt_expectedStatus = Some 201, opt_timeout = None, opt_headers = None\<rparr> [] = (Inr envelope, sent')"
    and s: "status envelope = 201"
    by (simp add: get_def created_server_def)
  from s have "201 \<le> status envelope" and "status envelope < 300" by simp_all
  from get_2xx_envelope_fails_validateApiResponse [OF g this] g s show ?thesis by simp
qed

section \<open>validateArrayResponse\<close>

declare validateArrayResponse_loop.simps [simp del]

lemma loop_accepts_all:
  assumes "\<forall>j. i \<le> j \<and> j < length xs \<longrightarrow> validator (Some (xs ! j)) args = Inr True"
  shows "validateArrayResponse_loop validator args xs i applied =
           (Inr True, applied @ map (\<lambda>j. (j, xs ! j)) [i..<length xs])"
  using assms
proof (induction validator args xs i applied rule: validateArrayResponse_loop.induct)
  case (1 validator args xs i applied)
  show ?case
  proof (cases "i < length xs")
    case True
    with "1.prems" have ok: "validator (Some (xs ! i)) args = Inr True" by simp
    have "validateArrayResponse_loop validator args xs (i + 1) (applied @ [(i, xs ! i)]) =
            (Inr True, (applied @ [(i, xs ! i)]) @ map (\<lambda>j. (j, xs ! j)) [i + 1..<length xs])"
      using "1.prems" by (intro "1.IH" [OF True refl refl ok]) auto
    with True ok show ?thesis
      by (subst validateArrayResponse_loop.simps) (simp add: upt_conv_Cons)
  next
    case False
    then show ?thesis
      by (subst validateArrayResponse_loop.simps) simp
  qed
qed

lemma loop_stops_at_first_reject:
  assumes "i \<le> k" and "k < length xs"
      and "\<forall>j. i \<le> j \<and> j < k \<longrightarrow> validator (Some (xs ! j)) args = Inr True"
      and "validator (Some (xs ! k)) args = Inr False"
  shows "validateArrayResponse_loop validator args xs i applied =
           (Inr False, applied @ map (\<lambda>j. (j, xs ! j)) [i..<Suc k])"
  using assms
proof (induction validator args xs i applied rule: validateArrayResponse_loop.induct)
  case (1 validator args xs i applied)
  from "1.prems" have lt: "i < length xs" by simp
  show ?case
  proof (cases "i = k")
    case True
    with "1.prems" lt show ?thesis
      by (subst validateArrayResponse_loop.simps) simp
  next
    case False
    with "1.prems" have ik: "i < k" and ok: "validator (Some (xs ! i)) args = Inr True" by simp_all
    have "validateArrayResponse_loop validator args xs (i + 1) (applied @ [(i, xs ! i)]) =
            (Inr False, (applied @ [(i, xs ! i)]) @ map (\<lambda>j. (j, xs ! j)) [i + 1..<Suc k])"
      using "1.prems" ik by (intro "1.IH" [OF lt refl refl ok]) auto
    with lt ok ik show ?thesis
      by (subst validateArrayResponse_loop.simps) (simp add: upt_conv_Cons)
  qed
qed

text \<open>
  C4. Let \<^verbatim>\<open>data\<close> be an array. If the item validator accepts every item at an index
  below \<open>k\<close> and rejects the item at index \<open>k\<close>, \<^verbatim>\<open>validateArrayResponse\<close> returns
  false and the validator has been applied to the items at the indices 0 to \<open>k\<close>, in
  this order, and to no item at an index greater than \<open>k\<close>. If the validator accepts
  every item, \<^verbatim>\<open>validateArrayResponse\<close> returns true.
\<close>

theorem validateArrayResponse_short_circuits:
  assumes "data response = Some (JArr xs)"
  shows "(k < length xs \<and> (\<forall>j<k. validator (Some (xs ! j)) args = Inr True) \<and>
          validator (Some (xs ! k)) args = Inr False \<longrightarrow>
            fst (validateArrayResponse response validator args) = Inr False \<and>
            snd (validateArrayResponse response validator args) = map (\<lambda>j. (j, xs ! j)) [0..<Suc k] \<and>
            (\<forall>j item. (j, item) \<in> set (snd (validateArrayResponse response validator args)) \<longrightarrow> j \<le> k)) \<and>
         ((\<forall>j<length xs. validator (Some (xs ! j)) args = Inr True) \<longrightarrow>
            fst (validateArrayResponse response validator args) = Inr True)"
proof (intro conjI impI)
  assume a: "k < length xs \<and> (\<forall>j<k. validator (Some (xs ! j)) args = Inr True) \<and>
          validator (Some (xs ! k)) args = Inr False"
  then have ne: "xs \<noteq> []" by auto
  from a have "validateArrayResponse_loop validator args xs 0 [] =
                 (Inr False, [] @ map (\<lambda>j. (j, xs ! j)) [0..<Suc k])"
    by (intro loop_stops_at_first_reject) auto
  with assms ne have v: "validateArrayResponse response validator args =
                 (Inr False, map (\<lambda>j. (j, xs ! j)) [0..<Suc k])"
    by (simp add: validateArrayResponse_def)
  from v show "fst (validateArrayResponse response validator args) = Inr False" by simp
  from v show "snd (validateArrayResponse response validator args) = map (\<lambda>j. (j, xs ! j)) [0..<Suc k]"
    by simp
  from v show "\<forall>j item. (j, item) \<in> set (snd (validateArrayResponse response validator args)) \<longrightarrow> j \<le> k"
    by auto
next
  assume a: "\<forall>j<length xs. validator (Some (xs ! j)) args = Inr True"
  then have "validateArrayResponse_loop validator args xs 0 [] =
                 (Inr True, [] @ map (\<lambda>j. (j, xs ! j)) [0..<length xs])"
    by (intro loop_accepts_all) auto
  with assms show "fst (validateArrayResponse response validator args) = Inr True"
    by (simp add: validateArrayResponse_def)
qed

theorem validateArrayResponse_short_circuits_witness:
  "validateArrayResponse
     \<lparr>data = Some (JArr three_items), error = None, status = 200, headers = Some (JObj [])\<rparr>
     isNumberItem () =
   (Inr False, [(0, JNum (Num 1)), (1, JStr (js ''two''))]) \<and>
   fst (validateArrayResponse
     \<lparr>data = Some (JArr [JNum (Num 1)]), error = None, status = 200, headers = Some (JObj [])\<rparr>
     isNumberItem ()) = Inr True"
proof -
  have "fst (validateArrayResponse
     \<lparr>data = Some (JArr three_items), error = None, status = 200, headers = Some (JObj [])\<rparr>
     isNumberItem ()) = Inr False \<and>
     snd (validateArrayResponse
     \<lparr>data = Some (JArr three_items), error = None, status = 200, headers = Some (JObj [])\<rparr>
     isNumberItem ()) = map (\<lambda>j. (j, three_items ! j)) [0..<Suc 1]"
    using validateArrayResponse_short_circuits
      [of "\<lparr>data = Some (JArr three_items), error = None, status = 200, headers = Some (JObj [])\<rparr>"
          three_items 1 isNumberItem "()"]
    by (simp add: three_items_def isNumberItem_def)
  moreover have "map (\<lambda>j. (j, three_items ! j)) [0..<Suc 1] = [(0, JNum (Num 1)), (1, JStr (js ''two''))]"
    by (simp add: three_items_def)
  moreover have "fst (validateArrayResponse
     \<lparr>data = Some (JArr [JNum (Num 1)]), error = None, status = 200, headers = Some (JObj [])\<rparr>
     isNumberItem ()) = Inr True"
    using validateArrayResponse_short_circuits
      [of "\<lparr>data = Some (JArr [JNum (Num 1)]), error = None, status = 200, headers = Some (JObj [])\<rparr>"
          "[JNum (Num 1)]" 0 isNumberItem "()"]
    by (simp add: isNumberItem_def)
  ultimately show ?thesis
    by (metis prod.collapse)
qed

text \<open>
  C5. On the empty array \<^verbatim>\<open>validateArrayResponse\<close> returns true, and on \<^verbatim>\<open>data\<close>
  that is undefined or not an array it returns false; in both cases the item validator is
  applied to nothing.
\<close>

theorem validateArrayResponse_without_items:
  "(data response = Some (JArr []) \<longrightarrow>
      validateArrayResponse response validator args = (Inr True, [])) \<and>
   (data response = None \<or> \<not> isArray (data response) \<longrightarrow>
      validateArrayResponse response validator args = (Inr False, []))"
  by (auto simp: validateArrayResponse_def)

theorem validateArrayResponse_without_items_witness:
  "validateArrayResponse
     \<lparr>data = Some (JArr []), error = None, status = 200, headers = Some (JObj [])\<rparr> isNumberItem () =
     (Inr True, []) \<and>
   validateArrayResponse
     \<lparr>data = None, error = Some JNull, status = 404, headers = Some (JObj [])\<rparr> isNumberItem () =
     (Inr False, []) \<and>
   validateArrayResponse
     \<lparr>data = Some (JObj []), error = None, status = 200, headers = Some (JObj [])\<rparr> isNumberItem () =
     (Inr False, [])"
  using validateArrayResponse_without_items
      [of "\<lparr>data = Some (JArr []), error = None, status = 200, headers = Some (JObj [])\<rparr>" isNumberItem "()"]
    validateArrayResponse_without_items
      [of "\<lparr>data = None, error = Some JNull, status = 404, headers = Some (JObj [])\<rparr>" isNumberItem "()"]
    validateArrayResponse_without_items
      [of "\<lparr>data = Some (JObj []), error = None, status = 200, headers = Some (JObj [])\<rparr>" isNumberItem "()"]
  by simp

section \<open>Entity validators\<close>

lemma typeof_Tstring: "typeof v = Tstring \<Longrightarrow> \<exists>s. v = Some (JStr s)"
  by (induction v rule: typeof.induct) simp_all

lemma typeof_Tobject_not_undefined: "typeof v = Tobject \<Longrightarrow> v \<noteq> None"
  by (induction v rule: typeof.induct) simp_all

lemma trim_Nil: "trim [] = []"
  by (simp add: trim_def)

lemma truthy_string:
  assumes "typeof v = Tstring" and "length (trim (asString v)) \<noteq> 0"
  shows "truthy v"
proof -
  from assms(1) obtain s where v: "v = Some (JStr s)"
    using typeof_Tstring by blast
  with assms(2) have "s \<noteq> []"
    using trim_Nil by auto
  with v show ?thesis by simp
qed

text \<open>
  C2 at a comment of post 0. The comment matches \<^verbatim>\<open>isComment\<close>, its email has the valid
  format and its name, email and body are not empty after trimming, and yet
  \<^verbatim>\<open>validateCommentObject\<close> returns false: \<^verbatim>\<open>!comment.postId\<close> holds of 0.
\<close>

theorem validateCommentObject_rejects_postId_0:
  "isComment (Some comment_of_post_0) \<and>
   validateEmailFormat (asString (property (Some comment_of_post_0) (js ''email''))) \<and>
   length (trim (asString (property (Some comment_of_post_0) (js ''name'')))) \<noteq> 0 \<and>
   length (trim (asString (property (Some comment_of_post_0) (js ''email'')))) \<noteq> 0 \<and>
   length (trim (asString (property (Some comment_of_post_0) (js ''body'')))) \<noteq> 0 \<and>
   validateCommentObject (Some comment_of_post_0) = Inr False"
proof -
  have p: "property (Some comment_of_post_0) (js ''postId'') = Some (JNum (Num 0))"
    "property (Some comment_of_post_0) (js ''id'') = Some (JNum (Num 1))"
    "property (Some comment_of_post_0) (js ''name'') = Some (JStr (js ''id labore''))"
    "property (Some comment_of_post_0) (js ''email'') = Some (JStr (js ''Eliseo@gardner.biz''))"
    "property (Some comment_of_post_0) (js ''body'') = Some (JStr (js ''laudantium enim quasi''))"
    by (simp_all add: comment_of_post_0_def js_def)
  have c: "comment_of_post_0 \<noteq> JNull" "typeof (Some comment_of_post_0) = Tobject"
    by (simp_all add: comment_of_post_0_def)
  have e: "validateEmailFormat (js ''Eliseo@gardner.biz'')"
    by code_simp
  have t: "length (trim (js ''id labore'')) \<noteq> 0" "length (trim (js ''Eliseo@gardner.biz'')) \<noteq> 0"
    "length (trim (js ''laudantium enim quasi'')) \<noteq> 0"
    by code_simp+
  have "isComment (Some comment_of_post_0)"
    by (simp add: isComment_def p c)
  moreover have "validateCommentObject (Some comment_of_post_0) = Inr False"
    using c by (simp add: validateCommentObject_def p)
  ultimately show ?thesis
    using e t by (simp add: p)
qed

theorem validateCommentObject_rejects_postId_0_witness:
  "typeof (property (Some comment_of_post_0) (js ''postId'')) = Tnumber \<and>
   validateCommentObject (Some comment_of_post_0) \<noteq> Inr True"
  using validateCommentObject_rejects_postId_0 by (simp add: isComment_def)

text \<open>
  With \<^verbatim>\<open>postId\<close> and \<^verbatim>\<open>id\<close> truthy (neither 0 nor NaN), a comment of the declared
  shape that meets the business rules is accepted.
\<close>

lemma validateCommentObject_accepts:
  assumes "isComment comment"
      and "truthy (property comment (js ''postId''))" and "truthy (property comment (js ''id''))"
      and "validateEmailFormat (asString (property comment (js ''email'')))"
      and "length (trim (asString (property comment (js ''name'')))) \<noteq> 0"
      and "length (trim (asString (property comment (js ''email'')))) \<noteq> 0"
      and "length (trim (asString (property comment (js ''body'')))) \<noteq> 0"
  shows "validateCommentObject comment = Inr True"
proof -
  from assms(1) have ty: "typeof (property comment (js ''id'')) = Tnumber"
    "typeof (property comment (js ''postId'')) = Tnumber"
    "typeof (property comment (js ''name'')) = Tstring"
    "typeof (property comment (js ''email'')) = Tstring"
    "typeof (property comment (js ''body'')) = Tstring"
    and obj: "comment \<noteq> Some JNull" "typeof comment = Tobject"
    by (simp_all add: isComment_def)
  from obj(2) have "comment \<noteq> None" by (rule typeof_Tobject_not_undefined)
  moreover have "truthy (property comment (js ''name''))" "truthy (property comment (js ''email''))"
    "truthy (property comment (js ''body''))"
    using ty assms(5-7) by (simp_all add: truthy_string)
  ultimately show ?thesis
    using assms(2-7) ty obj by (simp add: validateCommentObject_def)
qed

text \<open>
  The other four validators go through the shape guard, which asks for the type of
  \<^verbatim>\<open>id\<close> and of the foreign key and not for their truthiness: they accept every value of
  the declared shape that meets the business rules, 0 included. (An expected foreign key
  that is NaN equals nothing under \<^verbatim>\<open>!==\<close>.)
\<close>

lemma validatePhoto_accepts:
  assumes "isPhoto photo"
      and "validateUrlFormat URL (asString (property photo (js ''url'')))"
      and "validateUrlFormat URL (asString (property photo (js ''thumbnailUrl'')))"
      and "expectedAlbumId = None \<or>
           (\<exists>n. n \<noteq> NaN \<and> expectedAlbumId = Some n \<and> property photo (js ''albumId'') = Some (JNum n))"
  shows "validatePhoto URL photo expectedAlbumId"
  using assms by (auto simp: validatePhoto_def differs_from_expected_def strict_eq_def)

lemma validateAlbum_accepts:
  assumes "isAlbum album"
      and "length (trim (asString (property album (js ''title'')))) \<noteq> 0"
      and "expectedUserId = None \<or>
           (\<exists>n. n \<noteq> NaN \<and> expectedUserId = Some n \<and> property album (js ''userId'') = Some (JNum n))"
  shows "validateAlbum album expectedUserId"
proof -
  from assms(1) have "typeof (property album (js ''title'')) = Tstring"
    by (simp add: isAlbum_def)
  then have "truthy (property album (js ''title''))"
    using assms(2) by (rule truthy_string)
  then show ?thesis
    using assms by (auto simp: validateAlbum_def differs_from_expected_def strict_eq_def)
qed

lemma validateTodo_accepts:
  assumes "isTodo todo"
      and "length (trim (asString (property todo (js ''title'')))) \<noteq> 0"
      and "expectedUserId = None \<or>
           (\<exists>n. n \<noteq> NaN \<and> expectedUserId = Some n \<and> property todo (js ''userId'') = Some (JNum n))"
  shows "validateTodo todo expectedUserId"
proof -
  from assms(1) have "typeof (property todo (js ''title'')) = Tstring"
    and "typeof (property todo (js ''completed'')) = Tboolean"
    by (simp_all add: isTodo_def)
  moreover from this(1) have "truthy (property todo (js ''title''))"
    using assms(2) by (rule truthy_string)
  ultimately show ?thesis
    using assms by (auto simp: validateTodo_def differs_from_expected_def strict_eq_def)
qed

lemma validatePost_accepts:
  assumes "isPost post"
      and "length (trim (asString (property post (js ''title'')))) \<noteq> 0"
      and "length (trim (asString (property post (js ''body'')))) \<noteq> 0"
      and "expectedUserId = None \<or>
           (\<exists>n. n \<noteq> NaN \<and> expectedUserId = Some n \<and> property post (js ''userId'') = Some (JNum n))"
  shows "validatePost post expectedUserId"
proof -
  from assms(1) have "typeof (property post (js ''title'')) = Tstring"
    and "typeof (property post (js ''body'')) = Tstring"
    by (simp_all add: isPost_def)
  then have "truthy (property post (js ''title''))" and "truthy (property post (js ''body''))"
    using assms(2,3) by (simp_all add: truthy_string)
  then show ?thesis
    using assms by (auto simp: validatePost_def differs_from_expected_def strict_eq_def)
qed

lemma validateAlbum_accepts_0:
  "isAlbum (Some album_of_user_0) \<and> validateAlbum (Some album_of_user_0) (Some (Num 0))"
proof -
  have p: "property (Some album_of_user_0) (js ''userId'') = Some (JNum (Num 0))"
    "property (Some album_of_user_0) (js ''id'') = Some (JNum (Num 0))"
    "property (Some album_of_user_0) (js ''title'') = Some (JStr (js ''quidem molestiae enim''))"
    by (simp_all add: album_of_user_0_def js_def)
  have t: "length (trim (js ''quidem molestiae enim'')) \<noteq> 0"
    by code_simp
  have a: "isAlbum (Some album_of_user_0)"
    by (simp add: isAlbum_def p) (simp add: album_of_user_0_def)
  from validateAlbum_accepts [OF a, of "Some (Num 0)"] a t show ?thesis
    by (simp add: p)
qed

section \<open>concurrentRequests\<close>

lemma rejections_set:
  "set [e. i \<leftarrow> is, i < length ps, Inl e \<leftarrow> [ps ! i]] = {e. \<exists>i\<in>set is. i < length ps \<and> ps ! i = Inl e}"
proof (induction "is")
  case Nil
  show ?case by simp
next
  case (Cons a "is")
  show ?case
  proof (cases "a < length ps")
    case True
    then show ?thesis
      using Cons.IH by (cases "ps ! a") auto
  next
    case False
    then show ?thesis
      using Cons.IH by auto
  qed
qed

lemma fulfilled_all:
  "\<forall>p\<in>set ps. \<exists>v. p = Inr v \<Longrightarrow> map Inr [v. Inr v \<leftarrow> ps] = ps"
  by (induction ps) auto

lemma Promise_all_fulfils:
  assumes "\<forall>p\<in>set ps. \<exists>v. p = Inr v"
  shows "\<exists>vs. Promise_all settled ps = Inr vs \<and> map Inr vs = ps"
proof -
  let ?rs = "[e. i \<leftarrow> settled @ [0..<length ps], i < length ps, Inl e \<leftarrow> [ps ! i]]"
  have "ps ! i \<noteq> Inl e" if "i < length ps" for i e
    using assms that nth_mem [of i ps] by fastforce
  then have "set ?rs = {}"
    unfolding rejections_set by auto
  then have "?rs = []"
    by (simp only: set_empty)
  then have "Promise_all settled ps = Inr [v. Inr v \<leftarrow> ps]"
    by (simp only: Promise_all_def list.case)
  moreover have "map Inr [v. Inr v \<leftarrow> ps] = ps"
    using assms by (rule fulfilled_all)
  ultimately show ?thesis by (intro exI conjI)
qed

lemma nonempty_list: "x \<in> set xs \<Longrightarrow> \<exists>y ys. xs = y # ys"
  by (cases xs) auto

lemma Promise_all_rejects:
  assumes "Inl e \<in> set ps"
  shows "\<exists>e'. Promise_all settled ps = Inl e' \<and> Inl e' \<in> set ps"
proof -
  let ?rs = "[e. i \<leftarrow> settled @ [0..<length ps], i < length ps, Inl e \<leftarrow> [ps ! i]]"
  have mem: "x \<in> set ?rs \<longleftrightarrow> (\<exists>i\<in>set (settled @ [0..<length ps]). i < length ps \<and> ps ! i = Inl x)"
    for x
    by (simp only: rejections_set mem_Collect_eq)
  from assms obtain i where i: "i < length ps" "ps ! i = Inl e"
    by (auto simp: in_set_conv_nth)
  then have "i \<in> set (settled @ [0..<length ps])" by simp
  with i have "\<exists>i\<in>set (settled @ [0..<length ps]). i < length ps \<and> ps ! i = Inl e"
    by (intro bexI conjI)
  then have "e \<in> set ?rs"
    by (simp only: mem)
  then have "\<exists>y ys. ?rs = y # ys"
    by (rule nonempty_list)
  then obtain e' es where rs: "?rs = e' # es"
    by (elim exE)
  have "e' \<in> set (e' # es)" by simp
  then have "e' \<in> set ?rs" by (simp only: rs)
  then have "\<exists>i\<in>set (settled @ [0..<length ps]). i < length ps \<and> ps ! i = Inl e'"
    by (simp only: mem)
  then obtain k where "k < length ps" "ps ! k = Inl e'"
    by (elim bexE conjE)
  then have "Inl e' \<in> set ps"
    using nth_mem [of k ps] by simp
  moreover from rs have "Promise_all settled ps = Inl e'"
    by (simp only: Promise_all_def list.case)
  ultimately show ?thesis by (intro exI conjI)
qed

lemma issue_requests_eq:
  "issue_requests this endpoint n sent =
     (map (\<lambda>i. fst (get this endpoint no_options
                       (sent @ replicate i (get_request this endpoint no_options)))) [0..<n],
      sent @ replicate n (get_request this endpoint no_options))"
proof (induction n arbitrary: sent)
  case 0
  show ?case by simp
next
  case (Suc n)
  have g: "get this endpoint no_options sent =
             (fst (get this endpoint no_options sent), sent @ [get_request this endpoint no_options])"
    using get_sent [of this endpoint no_options sent] by (metis prod.collapse)
  have m: "map (\<lambda>i. fst (get this endpoint no_options
                       (sent @ replicate i (get_request this endpoint no_options)))) [0..<Suc n] =
           fst (get this endpoint no_options sent) #
           map (\<lambda>i. fst (get this endpoint no_options
                       ((sent @ [get_request this endpoint no_options]) @
                        replicate i (get_request this endpoint no_options)))) [0..<n]"
    by (simp add: upt_conv_Cons map_Suc_upt [symmetric] replicate_app_Cons_same del: upt_Suc)
  show ?case
    by (subst issue_requests.simps, subst g, simp only: Suc.IH m Let_def prod.case)
      (simp add: replicate_app_Cons_same)
qed

lemma concurrentRequests_default:
  "concurrentRequests this settled endpoint None sent =
   concurrentRequests this settled endpoint (Some 10) sent"
  by (simp add: concurrentRequests_def)

text \<open>
  C8. For \<open>n \<ge> 0\<close>, \<^verbatim>\<open>concurrentRequests(endpoint, n)\<close> issues exactly \<open>n\<close> requests,
  each the GET of \<^verbatim>\<open>get(endpoint)\<close> to the base URL followed by the endpoint. When every
  one of the \<open>n\<close> calls of \<^verbatim>\<open>get\<close> returns an envelope, it returns these \<open>n\<close>
  envelopes in the order of the calls; when the server answers each of the \<open>n\<close>
  requests with status 200 and a body that parses, all \<open>n\<close> envelopes have status 200.
  When one of the calls throws, \<^verbatim>\<open>concurrentRequests\<close> throws the error of one of the
  failed calls and returns no list, in whatever order the calls settle.
\<close>

theorem concurrentRequests_join_all:
  assumes n: "0 \<le> n"
      and issued: "issue_requests this endpoint (nat n) sent = (promises, sent')"
  shows "snd (concurrentRequests this settled endpoint (Some n) sent) =
           sent @ replicate (nat n) (get_request this endpoint no_options) \<and>
         req_url (get_request this endpoint no_options) = baseUrl this @ endpoint \<and>
         length promises = nat n \<and>
         (\<forall>i<nat n. promises ! i =
            fst (get this endpoint no_options (sent @ replicate i (get_request this endpoint no_options)))) \<and>
         ((\<forall>p\<in>set promises. \<exists>envelope. p = Inr envelope) \<longrightarrow>
            (\<exists>responses. fst (concurrentRequests this settled endpoint (Some n) sent) = Inr responses \<and>
                         length responses = nat n \<and> map Inr responses = promises)) \<and>
         ((\<forall>i<nat n. \<exists>response body.
              request this (length sent + i) (get_request this endpoint no_options) = Inr response \<and>
              json_result response = Inr body \<and> status_code response = 200) \<longrightarrow>
            (\<exists>responses. fst (concurrentRequests this settled endpoint (Some n) sent) = Inr responses \<and>
                         length responses = nat n \<and> (\<forall>r\<in>set responses. status r = 200))) \<and>
         ((\<exists>err. Inl err \<in> set promises) \<longrightarrow>
            (\<exists>err. fst (concurrentRequests this settled endpoint (Some n) sent) = Inl err \<and>
                   Inl err \<in> set promises))"
proof -
  let ?req = "get_request this endpoint no_options"
  let ?call = "\<lambda>i. fst (get this endpoint no_options (sent @ replicate i ?req))"
  from issued have promises: "promises = map ?call [0..<nat n]"
    and sent': "sent' = sent @ replicate (nat n) ?req"
    by (simp_all add: issue_requests_eq)
  have cr: "concurrentRequests this settled endpoint (Some n) sent =
              (case Promise_all settled promises of
                 Inr responses \<Rightarrow> (Inr responses, sent') | Inl err \<Rightarrow> (Inl err, sent'))"
    by (simp add: concurrentRequests_def issued)
  have 1: "snd (concurrentRequests this settled endpoint (Some n) sent) = sent @ replicate (nat n) ?req"
    unfolding cr sent' by (cases "Promise_all settled promises") simp_all
  have 2: "req_url ?req = baseUrl this @ endpoint"
    by (rule req_url_get_request)
  have 3: "length promises = nat n"
    by (simp add: promises)
  have 4: "\<forall>i<nat n. promises ! i = ?call i"
    by (simp add: promises)
  have fulfil: "\<exists>responses. fst (concurrentRequests this settled endpoint (Some n) sent) = Inr responses \<and>
                         length responses = nat n \<and> map Inr responses = promises"
    if "\<forall>p\<in>set promises. \<exists>envelope. p = Inr envelope"
  proof -
    from Promise_all_fulfils [OF that, of settled]
    obtain vs where vs: "Promise_all settled promises = Inr vs" "map Inr vs = promises"
      by (elim exE conjE)
    from vs(2) have "length vs = length promises"
      by (metis length_map)
    with vs 3 show ?thesis
      unfolding cr by simp
  qed
  have 6: "\<exists>responses. fst (concurrentRequests this settled endpoint (Some n) sent) = Inr responses \<and>
                         length responses = nat n \<and> (\<forall>r\<in>set responses. status r = 200)"
    if healthy: "\<forall>i<nat n. \<exists>response body.
              request this (length sent + i) ?req = Inr response \<and>
              json_result response = Inr body \<and> status_code response = 200"
  proof -
    have ok: "\<exists>envelope. ?call i = Inr envelope \<and> status envelope = 200" if "i < nat n" for i
    proof -
      from healthy that obtain response body where
        r: "request this (length (sent @ replicate i ?req)) ?req = Inr response"
        and b: "json_result response = Inr body" and s: "status_code response = 200"
        by auto
      from get_completed [OF r b] s show ?thesis by simp
    qed
    have each: "\<exists>envelope. p = Inr envelope \<and> status envelope = 200" if "p \<in> set promises" for p
    proof -
      from that obtain i where "i < nat n" "p = ?call i"
        unfolding promises by auto
      with ok show ?thesis by simp
    qed
    then have "\<forall>p\<in>set promises. \<exists>envelope. p = Inr envelope" by blast
    from fulfil [OF this] obtain responses where
      res: "fst (concurrentRequests this settled endpoint (Some n) sent) = Inr responses"
        "length responses = nat n" "map Inr responses = promises"
      by (elim exE conjE)
    have "status r = 200" if "r \<in> set responses" for r
    proof -
      from that have "Inr r \<in> set (map Inr responses :: (js_error + ApiResponse) list)" by simp
      then have "Inr r \<in> set promises" by (simp only: res(3))
      from each [OF this] show ?thesis by simp
    qed
    with res(1,2) show ?thesis by blast
  qed
  have 7: "\<exists>err. fst (concurrentRequests this settled endpoint (Some n) sent) = Inl err \<and>
                   Inl err \<in> set promises"
    if "\<exists>err. Inl err \<in> set promises"
  proof -
    from that obtain err where "Inl err \<in> set promises" by (elim exE)
    from Promise_all_rejects [OF this, of settled]
    obtain e' where "Promise_all settled promises = Inl e'" "Inl e' \<in> set promises"
      by (elim exE conjE)
    then show ?thesis unfolding cr by simp
  qed
  from 1 2 3 4 fulfil 6 7 show ?thesis by (intro conjI impI)
qed

theorem concurrentRequests_join_all_witness:
  "(\<exists>responses.
      fst (concurrentRequests healthy_client [2, 0, 1] (js ''/posts/1/comments'') (Some 3) []) = Inr responses \<and>
      length responses = 3 \<and> (\<forall>r\<in>set responses. status r = 200)) \<and>
   (\<exists>err. fst (concurrentRequests flaky_client [2, 0, 1] (js ''/posts/1/comments'') (Some 3) []) = Inl err) \<and>
   length (snd (concurrentRequests flaky_client [2, 0, 1] (js ''/posts/1/comments'') (Some 3) [])) = 3"
proof -
  let ?ep = "js ''/posts/1/comments''"
  have n: "(0::int) \<le> 3" by simp
  have ih: "issue_requests healthy_client ?ep (nat 3) [] =
              (fst (issue_requests healthy_client ?ep (nat 3) []),
               snd (issue_requests healthy_client ?ep (nat 3) []))"
    by simp
  have "\<forall>i<nat 3. \<exists>response body.
          request healthy_client (length ([]::http_get list) + i) (get_request healthy_client ?ep no_options) =
            Inr response \<and>
          json_result response = Inr body \<and> status_code response = 200"
    by (simp add: healthy_client_def healthy_server_def)
  with concurrentRequests_join_all [OF n ih, of "[2, 0, 1]"]
  have 1: "\<exists>responses.
      fst (concurrentRequests healthy_client [2, 0, 1] ?ep (Some 3) []) = Inr responses \<and>
      length responses = 3 \<and> (\<forall>r\<in>set responses. status r = 200)"
    by simp
  have i: "issue_requests flaky_client ?ep (nat 3) [] =
              (fst (issue_requests flaky_client ?ep (nat 3) []),
               snd (issue_requests flaky_client ?ep (nat 3) []))"
    by simp
  note T = concurrentRequests_join_all [OF n i, of "[2, 0, 1]"]
  let ?promises = "fst (issue_requests flaky_client ?ep (nat 3) [])"
  from T have len: "length ?promises = 3"
    and nth: "?promises ! 1 =
      fst (get flaky_client ?ep no_options ([] @ replicate 1 (get_request flaky_client ?ep no_options)))"
    by simp_all
  have "fst (get flaky_client ?ep no_options ([] @ replicate 1 (get_request flaky_client ?ep no_options))) =
          Inl (get_catch (baseUrl flaky_client @ ?ep) (ErrorObject (js ''Timeout 10000ms exceeded'')))"
    by (rule get_transport_failure) (simp add: flaky_client_def flaky_server_def)
  with nth have "?promises ! 1 =
      Inl (get_catch (baseUrl flaky_client @ ?ep) (ErrorObject (js ''Timeout 10000ms exceeded'')))"
    by simp
  moreover from len have "?promises ! 1 \<in> set ?promises"
    by (intro nth_mem) simp
  ultimately have "\<exists>err. Inl err \<in> set ?promises"
    by (intro exI [of _ "get_catch (baseUrl flaky_client @ ?ep) (ErrorObject (js ''Timeout 10000ms exceeded''))"])
       simp
  with T have 2: "\<exists>err. fst (concurrentRequests flaky_client [2, 0, 1] ?ep (Some 3) []) = Inl err"
    by blast
  from T have 3: "length (snd (concurrentRequests flaky_client [2, 0, 1] ?ep (Some 3) [])) = 3"
    by simp
  from 1 2 3 show ?thesis by (intro conjI)
qed

section \<open>healthCheck\<close>

text \<open>
  C9. \<^verbatim>\<open>healthCheck()\<close> never throws. It issues one GET to the base URL followed by
  \<^verbatim>\<open>/health\<close> and returns true exactly when \<^verbatim>\<open>get\<close> returns an envelope of status 200;
  it returns false when the envelope has another status and when \<^verbatim>\<open>get\<close> throws, be it
  for a transport failure or for a body that does not parse.
\<close>

theorem healthCheck_never_raises:
  "fst (healthCheck this sent) =
     Inr (\<exists>envelope. fst (get this (js ''/health'') health_options sent) = Inr envelope \<and>
                      status envelope = 200) \<and>
   (fst (get this (js ''/health'') health_options sent) = Inr envelope \<and> status envelope \<noteq> 200 \<longrightarrow>
      fst (healthCheck this sent) = Inr False) \<and>
   (fst (get this (js ''/health'') health_options sent) = Inl err \<longrightarrow>
      fst (healthCheck this sent) = Inr False) \<and>
   (request this (length sent) (get_request this (js ''/health'') health_options) = Inl failure \<longrightarrow>
      fst (healthCheck this sent) = Inr False) \<and>
   (request this (length sent) (get_request this (js ''/health'') health_options) = Inr response \<and>
    json_result response = Inl parseError \<longrightarrow>
      fst (healthCheck this sent) = Inr False) \<and>
   snd (healthCheck this sent) = sent @ [get_request this (js ''/health'') health_options] \<and>
   req_url (get_request this (js ''/health'') health_options) = baseUrl this @ js ''/health''"
proof -
  have s: "snd (get this (js ''/health'') health_options sent) =
             sent @ [get_request this (js ''/health'') health_options]"
    by (simp add: get_def Let_def split: sum.splits)
  have u: "req_url (get_request this (js ''/health'') health_options) = baseUrl this @ js ''/health''"
    by (simp add: get_request_def)
  have h: "healthCheck this sent =
             (case fst (get this (js ''/health'') health_options sent) of
                Inr response \<Rightarrow> Inr (status response = 200) | Inl e \<Rightarrow> Inr False,
              snd (get this (js ''/health'') health_options sent))"
    by (simp add: healthCheck_def split: prod.splits sum.splits)
  have 1: "fst (healthCheck this sent) =
     Inr (\<exists>envelope. fst (get this (js ''/health'') health_options sent) = Inr envelope \<and>
                      status envelope = 200)"
    unfolding h by (cases "fst (get this (js ''/health'') health_options sent)") simp_all
  have 2: "fst (healthCheck this sent) = Inr False"
    if "fst (get this (js ''/health'') health_options sent) = Inr envelope \<and> status envelope \<noteq> 200"
    unfolding h using that by simp
  have 3: "fst (healthCheck this sent) = Inr False"
    if "fst (get this (js ''/health'') health_options sent) = Inl err" for err
    unfolding h using that by simp
  have 4: "fst (healthCheck this sent) = Inr False"
    if "request this (length sent) (get_request this (js ''/health'') health_options) = Inl failure"
    using 3 get_transport_failure [OF that] by simp
  have 5: "fst (healthCheck this sent) = Inr False"
    if "request this (length sent) (get_request this (js ''/health'') health_options) = Inr response \<and>
        json_result response = Inl parseError"
    using 3 get_parse_failure [of this sent "js ''/health''" health_options response parseError] that
    by simp
  from 1 2 3 4 5 s u h show ?thesis by simp
qed

theorem healthCheck_never_raises_witness:
  "fst (healthCheck \<lparr>request = healthy_server, baseUrl = js ''http://localhost:3000''\<rparr> []) = Inr True \<and>
   fst (healthCheck \<lparr>request = refusing_server, baseUrl = js ''http://localhost:3000''\<rparr> []) = Inr False \<and>
   fst (healthCheck \<lparr>request = garbled_server, baseUrl = js ''http://localhost:3000''\<rparr> []) = Inr False \<and>
   fst (healthCheck \<lparr>request = not_found_server, baseUrl = js ''http://localhost:3000''\<rparr> []) = Inr False"
proof -
  have up: "\<exists>envelope. fst (get \<lparr>request = healthy_server, baseUrl = js ''http://localhost:3000''\<rparr>
              (js ''/health'') health_options []) = Inr envelope \<and> status envelope = 200"
    by (simp add: get_def Let_def healthy_server_def)
  have refused: "\<not> (\<exists>envelope. fst (get \<lparr>request = refusing_server, baseUrl = js ''http://localhost:3000''\<rparr>
              (js ''/health'') health_options []) = Inr envelope \<and> status envelope = 200)"
    by (simp add: get_def Let_def refusing_server_def)
  have garbled: "\<not> (\<exists>envelope. fst (get \<lparr>request = garbled_server, baseUrl = js ''http://localhost:3000''\<rparr>
              (js ''/health'') health_options []) = Inr envelope \<and> status envelope = 200)"
    by (simp add: get_def Let_def garbled_server_def)
  have missing: "\<not> (\<exists>envelope. fst (get \<lparr>request = not_found_server, baseUrl = js ''http://localhost:3000''\<rparr>
              (js ''/health'') health_options []) = Inr envelope \<and> status envelope = 200)"
    by (simp add: get_def Let_def not_found_server_def)
  have "fst (healthCheck \<lparr>request = healthy_server, baseUrl = js ''http://localhost:3000''\<rparr> []) = Inr True"
    using healthCheck_never_raises [of "\<lparr>request = healthy_server, baseUrl = js ''http://localhost:3000''\<rparr>" "[]"]
      up by simp
  moreover have "fst (healthCheck \<lparr>request = refusing_server, baseUrl = js ''http://localhost:3000''\<rparr> []) = Inr False"
    using healthCheck_never_raises [of "\<lparr>request = refusing_server, baseUrl = js ''http://localhost:3000''\<rparr>" "[]"]
      refused by simp
  moreover have "fst (healthCheck \<lparr>request = garbled_server, baseUrl = js ''http://localhost:3000''\<rparr> []) = Inr False"
    using healthCheck_never_raises [of "\<lparr>request = garbled_server, baseUrl = js ''http://localhost:3000''\<rparr>" "[]"]
      garbled by simp
  moreover have "fst (healthCheck \<lparr>request = not_found_server, baseUrl = js ''http://localhost:3000''\<rparr> []) = Inr False"
    using healthCheck_never_raises [of "\<lparr>request = not_found_server, baseUrl = js ''http://localhost:3000''\<rparr>" "[]"]
      missing by simp
  ultimately show ?thesis by simp
qed

end
